theory Spec2Isabelle
  imports Main "HOL-Library.Word"
begin

unbundle bit_operations_syntax

section \<open>The environment of schema-manager\<close>

text \<open>
  schema-manager is command-line glue over the operating system (\<^verbatim>\<open>os\<close>,
  \<^verbatim>\<open>path/filepath\<close>, \<^verbatim>\<open>regexp\<close>) and the go-git library. The model keeps the
  program's own control flow and makes everything it calls explicit: the directory tree at
  the cache path, the answers of the library calls, the lines written to standard output,
  the sequence of library calls made, and the exit status.
\<close>

type_synonym error = string

subsection \<open>The directory tree at the cache path\<close>

text \<open>
  What \<^verbatim>\<open>filepath.Walk\<close> can meet. Walk uses \<^verbatim>\<open>os.Lstat\<close>, so a symbolic link is
  an entry of its own and is never followed. \<open>OtherFile\<close> stands for every entry that is
  neither a directory nor a regular file (symbolic link, named pipe, socket, device).
  \<open>UnreadableDir\<close> is a directory whose names cannot be read, \<open>Inaccessible\<close> an
  entry whose \<^verbatim>\<open>Lstat\<close> fails; both carry the error. The entries of a directory are
  listed in the order in which Walk visits them.
\<close>

datatype node =
    RegularFile
  | OtherFile
  | Directory "(string \<times> node) list"
  | UnreadableDir error
  | Inaccessible error

text \<open>
  The cache path is absent, or holds something that no completed clone produced
  (\<open>Partial\<close>), or holds the working tree written by a completed \<^verbatim>\<open>git.PlainClone\<close>.
\<close>

datatype cache = Absent | Partial node | WorkingTree node

fun cache_node :: "cache \<Rightarrow> node option" where
  "cache_node Absent = None"
| "cache_node (Partial t) = Some t"
| "cache_node (WorkingTree t) = Some t"

text \<open>What the \<^verbatim>\<open>Lstat\<close> of the cache path finds.\<close>

fun root_of :: "cache \<Rightarrow> node" where
  "root_of Absent = Inaccessible ''no such file or directory''"
| "root_of (Partial t) = t"
| "root_of (WorkingTree t) = t"

subsection \<open>Commit identifiers and remote references\<close>

text \<open>A \<^verbatim>\<open>plumbing.Hash\<close> is 20 bytes; \<^verbatim>\<open>String()\<close> is its 40 lower-case hex digits.\<close>

type_synonym hash = "160 word"

definition hex_digit :: "nat \<Rightarrow> char" where
  "hex_digit n = ''0123456789abcdef'' ! (n mod 16)"

definition hash_String :: "hash \<Rightarrow> string" where
  "hash_String h = map (\<lambda>i. hex_digit (unat (drop_bit (4 * (39 - i)) h AND 15))) [0..<40]"

definition IsZero :: "hash \<Rightarrow> bool" where
  "IsZero h = (h = 0)"

record reference =
  ref_Name :: string
  ref_Hash :: hash

definition HasPrefix :: "string \<Rightarrow> string \<Rightarrow> bool" where
  "HasPrefix s pre = (length pre \<le> length s \<and> take (length pre) s = pre)"

definition HasSuffix :: "string \<Rightarrow> string \<Rightarrow> bool" where
  "HasSuffix s suf = (length suf \<le> length s \<and> drop (length s - length suf) s = suf)"

text \<open>\<^verbatim>\<open>plumbing.ReferenceName\<close>: a branch lives under \<^verbatim>\<open>refs/heads/\<close>; the short name drops
  the namespace prefix.\<close>

definition IsBranch :: "string \<Rightarrow> bool" where
  "IsBranch r = HasPrefix r ''refs/heads/''"

definition Short :: "string \<Rightarrow> string" where
  "Short r =
     (if HasPrefix r ''refs/heads/'' then drop 11 r
      else if HasPrefix r ''refs/tags/'' then drop 10 r
      else if HasPrefix r ''refs/remotes/'' then drop 13 r
      else if HasPrefix r ''refs/'' then drop 5 r
      else r)"

subsection \<open>Library calls, their answers, and the running process\<close>

datatype syscall =
    os_UserHomeDir
  | os_RemoveAll
  | os_Stat
  | os_MkdirAll
  | git_PlainClone
  | filepath_Walk
  | regexp_Compile
  | git_PlainOpen
  | repo_Remote
  | remote_List
  | repo_Head

text \<open>
  The answers the libraries give during one run. A failing \<^verbatim>\<open>RemoveAll\<close> or
  \<^verbatim>\<open>PlainClone\<close> leaves \<open>RemoveAll_rest\<close> or \<open>PlainClone_rest\<close> at the cache path.
  A compiled regular expression is its \<^verbatim>\<open>MatchString\<close> predicate.
\<close>

record world =
  UserHomeDir_res :: "error + string"
  Join :: "string list \<Rightarrow> string"
  RemoveAll_err :: "error option"
  RemoveAll_rest :: cache
  MkdirAll_err :: "error option"
  PlainClone_res :: "error + node"
  PlainClone_rest :: cache
  Compile_res :: "string \<Rightarrow> error + (string \<Rightarrow> bool)"
  PlainOpen_err :: "error option"
  Remote_err :: "error option"
  List_res :: "error + reference list"
  Head_res :: "error + hash"

record proc =
  stdout :: "string list"
  calls :: "syscall list"
  disk :: cache
  exited :: "int option"

definition start :: "cache \<Rightarrow> proc" where
  "start c = \<lparr>stdout = [], calls = [], disk = c, exited = None\<rparr>"

definition println :: "string \<Rightarrow> proc \<Rightarrow> proc" where
  "println s p = p\<lparr>stdout := stdout p @ [s]\<rparr>"

definition call :: "syscall \<Rightarrow> proc \<Rightarrow> proc" where
  "call c p = p\<lparr>calls := calls p @ [c]\<rparr>"

definition os_Exit :: "int \<Rightarrow> proc \<Rightarrow> proc" where
  "os_Exit n p = p\<lparr>exited := Some n\<rparr>"

definition exit_status :: "proc \<Rightarrow> int" where
  "exit_status p = (case exited p of None \<Rightarrow> 0 | Some n \<Rightarrow> n)"

definition RemoveAll :: "world \<Rightarrow> proc \<Rightarrow> error option \<times> proc" where
  "RemoveAll w p =
     (case RemoveAll_err w of
        None \<Rightarrow> (None, (call os_RemoveAll p)\<lparr>disk := Absent\<rparr>)
      | Some e \<Rightarrow> (Some e, (call os_RemoveAll p)\<lparr>disk := RemoveAll_rest w\<rparr>))"

definition Stat :: "proc \<Rightarrow> error option \<times> proc" where
  "Stat p =
     (case cache_node (disk p) of
        None \<Rightarrow> (Some ''no such file or directory'', call os_Stat p)
      | Some t \<Rightarrow> (None, call os_Stat p))"

definition MkdirAll :: "world \<Rightarrow> proc \<Rightarrow> error option \<times> proc" where
  "MkdirAll w p =
     (case MkdirAll_err w of
        Some e \<Rightarrow> (Some e, call os_MkdirAll p)
      | None \<Rightarrow>
          (None, (call os_MkdirAll p)
                   \<lparr>disk := (case disk p of Absent \<Rightarrow> Partial (Directory []) | c \<Rightarrow> c)\<rparr>))"

definition PlainClone :: "world \<Rightarrow> proc \<Rightarrow> error option \<times> proc" where
  "PlainClone w p =
     (case PlainClone_res w of
        Inl e \<Rightarrow> (Some e, (call git_PlainClone p)\<lparr>disk := PlainClone_rest w\<rparr>)
      | Inr t \<Rightarrow> (None, (call git_PlainClone p)\<lparr>disk := WorkingTree t\<rparr>))"

subsection \<open>\<^verbatim>\<open>filepath.Walk\<close>\<close>

record file_info =
  info_Name :: string
  info_IsDir :: bool

text \<open>
  The callback receives the path (here its components below the root), the
  \<^verbatim>\<open>FileInfo\<close> (nil when \<^verbatim>\<open>Lstat\<close> failed) and the error met at that path,
  and answers nil or an error. \<open>walk\<close> is one entry: \<^verbatim>\<open>Lstat\<close>, then the callback,
  then, for a directory whose names were read and whose callback answered nil, its
  entries in turn; the first error a callback answers ends the whole walk.
  The callbacks of this program never answer \<^verbatim>\<open>SkipDir\<close> or \<^verbatim>\<open>SkipAll\<close>.
\<close>

type_synonym 's walk_fn =
  "string list \<Rightarrow> file_info option \<Rightarrow> error option \<Rightarrow> 's \<Rightarrow> error option \<times> 's"

fun walk :: "'s walk_fn \<Rightarrow> string list \<Rightarrow> string \<Rightarrow> node \<Rightarrow> 's \<Rightarrow> error option \<times> 's"
and walk_names ::
  "'s walk_fn \<Rightarrow> string list \<Rightarrow> (string \<times> node) list \<Rightarrow> 's \<Rightarrow> error option \<times> 's"
where
  "walk fn path name (Inaccessible e) s = fn path None (Some e) s"
| "walk fn path name RegularFile s =
     fn path (Some \<lparr>info_Name = name, info_IsDir = False\<rparr>) None s"
| "walk fn path name OtherFile s =
     fn path (Some \<lparr>info_Name = name, info_IsDir = False\<rparr>) None s"
| "walk fn path name (UnreadableDir e) s =
     fn path (Some \<lparr>info_Name = name, info_IsDir = True\<rparr>) (Some e) s"
| "walk fn path name (Directory es) s =
     (case fn path (Some \<lparr>info_Name = name, info_IsDir = True\<rparr>) None s of
        (Some e, s') \<Rightarrow> (Some e, s')
      | (None, s') \<Rightarrow> walk_names fn path es s')"
| "walk_names fn path [] s = (None, s)"
| "walk_names fn path ((n, t) # es) s =
     (case walk fn (path @ [n]) n t s of
        (Some e, s') \<Rightarrow> (Some e, s')
      | (None, s') \<Rightarrow> walk_names fn path es s')"

text \<open>The cache path is \<^verbatim>\<open>Join(home, ".opencmd", "commands")\<close>: the root's name is
  \<^verbatim>\<open>commands\<close>.\<close>

definition Walk :: "node \<Rightarrow> 's walk_fn \<Rightarrow> 's \<Rightarrow> error option \<times> 's" where
  "Walk root fn s = walk fn [] ''commands'' root s"

fun join_path :: "string list \<Rightarrow> string" where
  "join_path [] = []"
| "join_path [x] = x"
| "join_path (x # y # ys) = x @ ''/'' @ join_path (y # ys)"

definition Rel :: "string list \<Rightarrow> string" where
  "Rel path = (if path = [] then ''.'' else join_path path)"

section \<open>The four commands\<close>

definition repositoryExists :: "proc \<Rightarrow> bool \<times> proc" where
  "repositoryExists p = (let (err, p') = Stat p in (err = None, p'))"

definition not_found_msg :: string where
  "not_found_msg = ''Repository not found. Run 'schema-manager init' first.''"

subsection \<open>init\<close>

definition initRepository :: "world \<Rightarrow> string \<Rightarrow> bool \<Rightarrow> proc \<Rightarrow> proc" where
  "initRepository w cacheDir forceClone p0 =
     (case (if forceClone then
              (case RemoveAll w p0 of
                 (Some e, p) \<Rightarrow>
                   Inl (os_Exit 1 (println (''Error removing existing directory: '' @ e) p))
               | (None, p) \<Rightarrow> Inr (println ''Removed existing cache directory.'' p))
            else Inr p0) of
        Inl p \<Rightarrow> p
      | Inr p1 \<Rightarrow>
          (let (err, p2) = Stat p1 in
           if err = None \<and> \<not> forceClone then
             println ''Use -f flag to force re-clone.''
               (println (''Repository already exists at: '' @ cacheDir) p2)
           else
             (case MkdirAll w p2 of
                (Some e, p3) \<Rightarrow> os_Exit 1 (println (''Error creating directory: '' @ e) p3)
              | (None, p3) \<Rightarrow>
                  (case PlainClone w (println (''Cloning repository to: '' @ cacheDir) p3) of
                     (Some e, p4) \<Rightarrow>
                       os_Exit 1 (println (''Error cloning repository: '' @ e) p4)
                   | (None, p4) \<Rightarrow> println ''Repository cloned successfully!'' p4))))"

subsection \<open>list\<close>

text \<open>The callback returns the error it is handed before it looks at \<open>info\<close>. Walk hands
  over a nil \<open>info\<close> only together with an error, so the branch for a nil \<open>info\<close>
  without error, where the Go code would dereference nil, is never taken.\<close>

definition listFiles_fn :: "proc walk_fn" where
  "listFiles_fn path info err p =
     (case err of
        Some e \<Rightarrow> (Some e, p)
      | None \<Rightarrow>
          (case info of
             None \<Rightarrow> (Some ''nil FileInfo'', p)
           | Some i \<Rightarrow>
               if \<not> info_IsDir i \<and> HasSuffix (info_Name i) ''.hl''
               then (None, println (''  '' @ Rel path) p)
               else (None, p)))"

definition listFiles :: "proc \<Rightarrow> proc" where
  "listFiles p0 =
     (let (ex, p1) = repositoryExists p0 in
      if \<not> ex then println not_found_msg p1
      else
        (let p2 = println ''=====================================''
                    (println ''Listing .hl files in cache directory:'' p1);
             (err, p3) = Walk (root_of (disk p2)) listFiles_fn (call filepath_Walk p2)
         in case err of
              Some e \<Rightarrow> println (''Error walking directory: '' @ e) p3
            | None \<Rightarrow> p3))"

subsection \<open>search\<close>

definition searchFiles_fn :: "(string \<Rightarrow> bool) \<Rightarrow> (proc \<times> bool) walk_fn" where
  "searchFiles_fn regex path info err s =
     (case err of
        Some e \<Rightarrow> (Some e, s)
      | None \<Rightarrow>
          (case info of
             None \<Rightarrow> (Some ''nil FileInfo'', s)
           | Some i \<Rightarrow>
               if \<not> info_IsDir i \<and> HasSuffix (info_Name i) ''.hl''
               then (if regex (info_Name i)
                     then (None, (println (''  '' @ Rel path) (fst s), True))
                     else (None, s))
               else (None, s)))"

definition searchFiles :: "world \<Rightarrow> string \<Rightarrow> proc \<Rightarrow> proc" where
  "searchFiles w pattern p0 =
     (let (ex, p1) = repositoryExists p0 in
      if \<not> ex then println not_found_msg p1
      else
        (case Compile_res w pattern of
           Inl e \<Rightarrow> println (''Invalid regex pattern: '' @ e) (call regexp_Compile p1)
         | Inr regex \<Rightarrow>
             (let p2 = println ''==================================================''
                         (println (''Searching for .hl files matching pattern: '' @ pattern)
                            (call regexp_Compile p1));
                  (err, (p3, found)) =
                     Walk (root_of (disk p2)) (searchFiles_fn regex)
                       (call filepath_Walk p2, False)
              in case err of
                   Some e \<Rightarrow> println (''Error walking directory: '' @ e) p3
                 | None \<Rightarrow>
                     if \<not> found then println ''No .hl files found matching the pattern.'' p3
                     else p3)))"

subsection \<open>status\<close>

text \<open>The loop over the remote's references; \<open>remoteMainHash\<close> starts as the zero hash.\<close>

fun remoteMainHash :: "reference list \<Rightarrow> hash" where
  "remoteMainHash [] = 0"
| "remoteMainHash (ref # refs) =
     (if IsBranch (ref_Name ref) \<and> Short (ref_Name ref) = ''main'' then ref_Hash ref
      else remoteMainHash refs)"

definition up_to_date_msg :: string where
  "up_to_date_msg = [CHR 0xE2, CHR 0x9C, CHR 0x93] @ '' Local repository is up to date with remote.''"

definition behind_msg :: string where
  "behind_msg = [CHR 0xE2, CHR 0x9C, CHR 0x97] @ '' Local repository is behind remote.''"

definition no_main_msg :: string where
  "no_main_msg = ''Could not find remote main branch.''"

definition checkRepository :: "world \<Rightarrow> proc \<Rightarrow> proc" where
  "checkRepository w p0 =
     (let (ex, p1) = repositoryExists p0 in
      if \<not> ex then println not_found_msg p1
      else
        (case PlainOpen_err w of
           Some e \<Rightarrow> println (''Error opening repository: '' @ e) (call git_PlainOpen p1)
         | None \<Rightarrow>
        (case Remote_err w of
           Some e \<Rightarrow>
             println (''Error getting remote: '' @ e) (call repo_Remote (call git_PlainOpen p1))
         | None \<Rightarrow>
        (let p2 = call remote_List (call repo_Remote (call git_PlainOpen p1)) in
         case List_res w of
           Inl e \<Rightarrow> println (''Error listing remote refs: '' @ e) p2
         | Inr refs \<Rightarrow>
        (case Head_res w of
           Inl e \<Rightarrow> println (''Error getting HEAD: '' @ e) (call repo_Head p2)
         | Inr head \<Rightarrow>
             (let p3 = call repo_Head p2; remoteMain = remoteMainHash refs in
              if IsZero remoteMain then println no_main_msg p3
              else if head = remoteMain then println up_to_date_msg p3
              else
                println ''  Run 'schema-manager init -f' to update.''
                  (println (''  Remote main: '' @ take 8 (hash_String remoteMain))
                     (println (''  Local HEAD:  '' @ take 8 (hash_String head))
                        (println behind_msg p3)))))))))"

subsection \<open>main\<close>

text \<open>
  The command line as cobra hands it over: one of the four subcommands, or a command line
  that \<^verbatim>\<open>Execute\<close> rejects with an error (unknown command, wrong number of arguments).
\<close>

datatype command = Init bool | List | Search string | Status | Rejected error

definition main :: "world \<Rightarrow> command \<Rightarrow> cache \<Rightarrow> proc" where
  "main w cmd c =
     (let p0 = call os_UserHomeDir (start c) in
      case UserHomeDir_res w of
        Inl e \<Rightarrow> os_Exit 1 (println (''Error getting user home directory: '' @ e) p0)
      | Inr homeDir \<Rightarrow>
          (let cacheDir = Join w [homeDir, ''.opencmd'', ''commands''] in
           case cmd of
             Init forceClone \<Rightarrow> initRepository w cacheDir forceClone p0
           | List \<Rightarrow> listFiles p0
           | Search pattern \<Rightarrow> searchFiles w pattern p0
           | Status \<Rightarrow> checkRepository w p0
           | Rejected e \<Rightarrow> os_Exit 1 (println e p0)))"

section \<open>What the specification speaks about\<close>

subsection \<open>Entries of a tree, and the paths a scan should report\<close>

text \<open>\<open>at root q x\<close>: the entry \<open>x\<close> sits at the relative path \<open>q\<close> below \<open>root\<close>. The
  relation reads the entries of a directory as a set, so it knows no traversal order.\<close>

inductive at :: "node \<Rightarrow> string list \<Rightarrow> node \<Rightarrow> bool" where
  at_root: "at t [] t"
| at_entry: "(n, t) \<in> set es \<Longrightarrow> at t q x \<Longrightarrow> at (Directory es) (n # q) x"

definition is_nondir :: "node \<Rightarrow> bool" where
  "is_nondir x = (x = RegularFile \<or> x = OtherFile)"

text \<open>The specification's set: the regular files whose name ends with \<^verbatim>\<open>.hl\<close>.\<close>

definition regular_hl :: "node \<Rightarrow> string list set" where
  "regular_hl root = {q. q \<noteq> [] \<and> HasSuffix (last q) ''.hl'' \<and> at root q RegularFile}"

text \<open>The same with every entry that is not a directory.\<close>

definition nondir_hl :: "node \<Rightarrow> string list set" where
  "nondir_hl root =
     {q. q \<noteq> [] \<and> HasSuffix (last q) ''.hl'' \<and> (\<exists>x. at root q x \<and> is_nondir x)}"

text \<open>The non-directory entries below \<open>t\<close> whose name satisfies \<open>P\<close>; \<open>name\<close> is the name of
  \<open>t\<close> itself.\<close>

definition below :: "(string \<Rightarrow> bool) \<Rightarrow> string \<Rightarrow> node \<Rightarrow> string list set" where
  "below P name t =
     {q. P (if q = [] then name else last q) \<and> (\<exists>x. at t q x \<and> is_nondir x)}"

text \<open>The first traversal error in the order of the walk, if there is one.\<close>

fun walk_error :: "node \<Rightarrow> error option"
and walk_error_names :: "(string \<times> node) list \<Rightarrow> error option" where
  "walk_error RegularFile = None"
| "walk_error OtherFile = None"
| "walk_error (Directory es) = walk_error_names es"
| "walk_error (UnreadableDir e) = Some e"
| "walk_error (Inaccessible e) = Some e"
| "walk_error_names [] = None"
| "walk_error_names ((n, t) # es) =
     (case walk_error t of Some e \<Rightarrow> Some e | None \<Rightarrow> walk_error_names es)"

text \<open>The entries of \<open>below\<close> that the walk reaches, as a list: in the order of the walk
  and up to its first error.\<close>

fun visited :: "(string \<Rightarrow> bool) \<Rightarrow> string list \<Rightarrow> string \<Rightarrow> node \<Rightarrow> string list list"
and visited_names ::
  "(string \<Rightarrow> bool) \<Rightarrow> string list \<Rightarrow> (string \<times> node) list \<Rightarrow> string list list"
where
  "visited P path name RegularFile = (if P name then [path] else [])"
| "visited P path name OtherFile = (if P name then [path] else [])"
| "visited P path name (Directory es) = visited_names P path es"
| "visited P path name (UnreadableDir e) = []"
| "visited P path name (Inaccessible e) = []"
| "visited_names P path [] = []"
| "visited_names P path ((n, t) # es) =
     visited P (path @ [n]) n t @
     (case walk_error t of Some e \<Rightarrow> [] | None \<Rightarrow> visited_names P path es)"

definition is_hl :: "string \<Rightarrow> bool" where
  "is_hl name = HasSuffix name ''.hl''"

definition path_line :: "string list \<Rightarrow> string" where
  "path_line q = ''  '' @ Rel q"

definition list_header :: "string list" where
  "list_header =
     [''Listing .hl files in cache directory:'', ''====================================='']"

definition search_header :: "string \<Rightarrow> string list" where
  "search_header pattern =
     [''Searching for .hl files matching pattern: '' @ pattern,
      ''=================================================='']"

definition no_match_msg :: string where
  "no_match_msg = ''No .hl files found matching the pattern.''"

subsection \<open>The cache invariant\<close>

definition valid_cache :: "cache \<Rightarrow> bool" where
  "valid_cache c = (case c of Absent \<Rightarrow> True | Partial t \<Rightarrow> False | WorkingTree t \<Rightarrow> True)"

subsection \<open>The first reference of the remote's \<^verbatim>\<open>main\<close> branch\<close>


subsection \<open>Examples\<close>

text \<open>The scenario of the specification: the files \<^verbatim>\<open>a/b.hl\<close>, \<^verbatim>\<open>a/c.txt\<close> and \<^verbatim>\<open>d.hl\<close>.\<close>

definition scenario_tree :: node where
  "scenario_tree =
     Directory [(''a'', Directory [(''b.hl'', RegularFile), (''c.txt'', RegularFile)]),
                (''d.hl'', RegularFile)]"

definition symlink_tree :: node where
  "symlink_tree = Directory [(''x.hl'', OtherFile)]"

definition locked_tree :: node where
  "locked_tree = Directory [(''a'', UnreadableDir ''permission denied''), (''d.hl'', RegularFile)]"

text \<open>A stand-in for \<^verbatim>\<open>regexp.Compile\<close> on the patterns of the examples: \<^verbatim>\<open>[invalid\<close> does
  not compile, \<^verbatim>\<open>^text\<close> matches the strings that start with the text.\<close>

definition scenario_Compile :: "string \<Rightarrow> error + (string \<Rightarrow> bool)" where
  "scenario_Compile pattern =
     (if pattern = ''[invalid'' then Inl ''error parsing regexp: missing closing ]''
      else if HasPrefix pattern ''^'' then Inr (\<lambda>s. HasPrefix s (drop 1 pattern))
      else Inr (\<lambda>s. list_ex (\<lambda>k. HasPrefix (drop k s) pattern) [0..<Suc (length s)]))"

definition main_ref :: reference where
  "main_ref = \<lparr>ref_Name = ''refs/heads/main'', ref_Hash = 0xabcdef0123456789abcdef0123456789abcdef01\<rparr>"

definition scenario_world :: world where
  "scenario_world =
     \<lparr>UserHomeDir_res = Inr ''/home/u'',
      Join = join_path,
      RemoveAll_err = None,
      RemoveAll_rest = Absent,
      MkdirAll_err = None,
      PlainClone_res = Inr scenario_tree,
      PlainClone_rest = Partial (Directory []),
      Compile_res = scenario_Compile,
      PlainOpen_err = None,
      Remote_err = None,
      List_res = Inr [\<lparr>ref_Name = ''HEAD'', ref_Hash = 0\<rparr>,
                      \<lparr>ref_Name = ''refs/tags/main'', ref_Hash = 7\<rparr>,
                      main_ref],
      Head_res = Inr 0x0123456789abcdef0123456789abcdef01234567\<rparr>"

text \<open>The same machine with the network down: the clone fails, and go-git leaves the
  directory that \<^verbatim>\<open>MkdirAll\<close> created, emptied.\<close>

definition offline_world :: world where
  "offline_world =
     scenario_world\<lparr>PlainClone_res := Inl ''dial tcp: network is unreachable''\<rparr>"

text \<open>The same machine with a cache that cannot be removed.\<close>

definition readonly_world :: world where
  "readonly_world =
     scenario_world\<lparr>RemoveAll_err := Some ''permission denied'',
                    RemoveAll_rest := WorkingTree scenario_tree\<rparr>"


text \<open>Printing one line per path, as both walks do.\<close>

definition print_paths :: "string list list \<Rightarrow> proc \<Rightarrow> proc" where
  "print_paths qs p = p\<lparr>stdout := stdout p @ map path_line qs\<rparr>"


section \<open>The walk of list and of search\<close>

inductive_simps at_Regular: "at RegularFile q x"
inductive_simps at_Other: "at OtherFile q x"
inductive_simps at_Unreadable: "at (UnreadableDir e) q x"
inductive_simps at_Inaccessible: "at (Inaccessible e) q x"
inductive_simps at_Directory: "at (Directory es) q x"

lemma below_Directory:
  "below P name (Directory es) = (\<Union>(n, t) \<in> set es. (\<lambda>q. n # q) ` below P n t)"
  by (auto simp: below_def at_Directory is_nondir_def image_iff split: if_splits) force+

lemma set_visited:
  "walk_error t = None \<longrightarrow> set (visited P path name t) = (\<lambda>q. path @ q) ` below P name t"
  "walk_error_names es = None \<longrightarrow> set (visited_names P path es) =
     (\<lambda>q. path @ q) ` (\<Union>(n, t) \<in> set es. (\<lambda>q. n # q) ` below P n t)"
proof (induction P path name t and P path es rule: visited_visited_names.induct)
  case (3 P path name es)
  then show ?case by (simp add: below_Directory)
next
  case (7 P path n t es)
  then show ?case by (auto simp add: image_Un image_image split: option.splits)
qed (auto simp: below_def at_Regular at_Other at_Unreadable at_Inaccessible is_nondir_def)

lemma not_hl_commands: "\<not> is_hl ''commands''"
  by (simp add: is_hl_def HasSuffix_def)

lemma below_root_hl: "below is_hl ''commands'' root = nondir_hl root"
  using not_hl_commands by (auto simp: below_def nondir_hl_def is_hl_def split: if_splits)

lemma below_root_match:
  "below (\<lambda>n. is_hl n \<and> regex n) ''commands'' root = {q \<in> nondir_hl root. regex (last q)}"
  using not_hl_commands by (auto simp: below_def nondir_hl_def is_hl_def split: if_splits)

lemma set_visited_root_hl:
  "walk_error root = None \<Longrightarrow> set (visited is_hl [] ''commands'' root) = nondir_hl root"
  by (simp add: set_visited below_root_hl)

lemma set_visited_root_match:
  "walk_error root = None \<Longrightarrow>
   set (visited (\<lambda>n. is_hl n \<and> regex n) [] ''commands'' root) =
     {q \<in> nondir_hl root. regex (last q)}"
  by (simp add: set_visited below_root_match)

lemma visited_subset:
  "set (visited P path name t) \<subseteq> (\<lambda>q. path @ q) ` below P name t"
  "set (visited_names P path es) \<subseteq>
     (\<lambda>q. path @ q) ` (\<Union>(n, t) \<in> set es. (\<lambda>q. n # q) ` below P n t)"
proof (induction P path name t and P path es rule: visited_visited_names.induct)
  case (3 P path name es)
  then show ?case by (simp add: below_Directory)
next
  case (7 P path n t es)
  have a: "set (visited P (path @ [n]) n t) \<subseteq> (\<lambda>q. path @ q) ` (\<lambda>q. n # q) ` below P n t"
    using 7(1) by (simp add: image_image)
  show ?case
  proof (cases "walk_error t")
    case None
    with 7(2) a show ?thesis by (auto simp: image_Un)
  next
    case (Some e)
    with a show ?thesis by (auto simp: image_Un)
  qed
qed (auto simp: below_def at_Regular at_Other at_Unreadable at_Inaccessible is_nondir_def)

lemma visited_root_match_subset:
  "set (visited (\<lambda>n. is_hl n \<and> regex n) [] ''commands'' root) \<subseteq>
     {q \<in> nondir_hl root. regex (last q)}"
  using visited_subset(1) [of "\<lambda>n. is_hl n \<and> regex n" "[]" "''commands''" root]
  by (simp add: below_root_match)

lemma print_paths_Nil [simp]: "print_paths [] p = p"
  by (simp add: print_paths_def)

lemma print_paths_twice [simp]: "print_paths qs' (print_paths qs p) = print_paths (qs @ qs') p"
  by (simp add: print_paths_def)

text \<open>The walk with list's callback answers the first traversal error and has printed the
  \<^verbatim>\<open>.hl\<close> entries met before it.\<close>

lemma walk_listFiles:
  "walk listFiles_fn path name t p = (walk_error t, print_paths (visited is_hl path name t) p)"
  "walk_names listFiles_fn path es p =
     (walk_error_names es, print_paths (visited_names is_hl path es) p)"
proof (induction "listFiles_fn" path name t p and "listFiles_fn" path es p
    rule: walk_walk_names.induct)
  case (5 path name es s)
  then show ?case by (simp add: listFiles_fn_def)
next
  case (7 path n t es s)
  then show ?case by (simp split: option.splits)
qed (simp_all add: listFiles_fn_def println_def path_line_def is_hl_def print_paths_def)

lemma walk_searchFiles:
  "walk (searchFiles_fn regex) path name t (p, f) =
     (walk_error t, print_paths (visited (\<lambda>n. is_hl n \<and> regex n) path name t) p,
                    f \<or> visited (\<lambda>n. is_hl n \<and> regex n) path name t \<noteq> [])"
  "walk_names (searchFiles_fn regex) path es (p, f) =
     (walk_error_names es, print_paths (visited_names (\<lambda>n. is_hl n \<and> regex n) path es) p,
                    f \<or> visited_names (\<lambda>n. is_hl n \<and> regex n) path es \<noteq> [])"
proof (induction "searchFiles_fn regex" path name t "(p, f)"
    and "searchFiles_fn regex" path es "(p, f)"
    arbitrary: p f and p f rule: walk_walk_names.induct)
  case (5 path name es)
  then show ?case by (simp add: searchFiles_fn_def)
next
  case (7 path n t es)
  then show ?case by (auto split: option.splits)
qed (simp_all add: searchFiles_fn_def println_def path_line_def is_hl_def print_paths_def)

lemma root_of_Some: "cache_node c = Some root \<Longrightarrow> root_of c = root"
  by (cases c) simp_all

lemmas prim_defs =
  start_def println_def call_def os_Exit_def exit_status_def Stat_def repositoryExists_def

section \<open>Commands on an absent cache\<close>

text \<open>
  C4. When the cache path does not exist, each of list, search and status prints the
  "not found, run init first" message and nothing else, and the process ends with status 0.
  The only library calls of the run are the lookup of the home directory and the
  \<^verbatim>\<open>os.Stat\<close> of the cache path: no directory walk, no clone, no call to the remote.
\<close>

theorem absent_cache_not_initialized:
  assumes "UserHomeDir_res w = Inr home"
    and "cmd = List \<or> cmd = Search pattern \<or> cmd = Status"
  shows "stdout (main w cmd Absent) = [not_found_msg] \<and>
         exit_status (main w cmd Absent) = 0 \<and>
         calls (main w cmd Absent) = [os_UserHomeDir, os_Stat] \<and>
         disk (main w cmd Absent) = Absent"
  using assms
  by (auto simp: main_def listFiles_def searchFiles_def checkRepository_def prim_defs)

theorem absent_cache_not_initialized_witness:
  "UserHomeDir_res scenario_world = Inr ''/home/u'' \<and>
   stdout (main scenario_world (Search ''^d'') Absent) = [not_found_msg] \<and>
   exit_status (main scenario_world (Search ''^d'') Absent) = 0 \<and>
   calls (main scenario_world (Search ''^d'') Absent) = [os_UserHomeDir, os_Stat] \<and>
   disk (main scenario_world (Search ''^d'') Absent) = Absent"
  using absent_cache_not_initialized [of scenario_world "''/home/u''" "Search ''^d''" "''^d''"]
  by (simp add: scenario_world_def)

section \<open>search with a pattern that does not compile\<close>

text \<open>
  C6. With the cache present, a pattern that \<^verbatim>\<open>regexp.Compile\<close> rejects makes search
  print the invalid-pattern message with the compiler's error and return: the directory is
  not walked, nothing on disk changes, and the process ends with status 0.
\<close>

theorem invalid_pattern_reported:
  assumes "UserHomeDir_res w = Inr home" and "cache_node c = Some root"
    and "Compile_res w pattern = Inl e"
  shows "stdout (main w (Search pattern) c) = [''Invalid regex pattern: '' @ e] \<and>
         calls (main w (Search pattern) c) = [os_UserHomeDir, os_Stat, regexp_Compile] \<and>
         filepath_Walk \<notin> set (calls (main w (Search pattern) c)) \<and>
         exit_status (main w (Search pattern) c) = 0 \<and>
         disk (main w (Search pattern) c) = c"
  using assms
  by (simp add: main_def searchFiles_def prim_defs)

theorem invalid_pattern_reported_witness:
  "UserHomeDir_res scenario_world = Inr ''/home/u'' \<and>
   cache_node (WorkingTree scenario_tree) = Some scenario_tree \<and>
   Compile_res scenario_world ''[invalid'' = Inl ''error parsing regexp: missing closing ]'' \<and>
   stdout (main scenario_world (Search ''[invalid'') (WorkingTree scenario_tree)) =
     [''Invalid regex pattern: error parsing regexp: missing closing ]''] \<and>
   exit_status (main scenario_world (Search ''[invalid'') (WorkingTree scenario_tree)) = 0"
  using invalid_pattern_reported [of scenario_world "''/home/u''" "WorkingTree scenario_tree"
      scenario_tree "''[invalid''" "''error parsing regexp: missing closing ]''"]
  by (simp add: scenario_world_def scenario_Compile_def)

section \<open>list\<close>

text \<open>What list does on a present cache, in one equation.\<close>

lemma listFiles_present:
  assumes "cache_node (disk p) = Some root"
  shows "listFiles p =
     (let p' = print_paths (visited is_hl [] ''commands'' root)
                 ((call filepath_Walk (call os_Stat p))\<lparr>stdout := stdout p @ list_header\<rparr>)
      in case walk_error root of None \<Rightarrow> p'
         | Some e \<Rightarrow> println (''Error walking directory: '' @ e) p')"
  using assms
  by (simp add: listFiles_def prim_defs Walk_def walk_listFiles list_header_def print_paths_def
        root_of_Some Let_def split: option.splits)

text \<open>The same for search, once the pattern has compiled.\<close>

lemma searchFiles_present:
  assumes "cache_node (disk p) = Some root" and "Compile_res w pattern = Inr regex"
  shows "searchFiles w pattern p =
     (let qs = visited (\<lambda>n. is_hl n \<and> regex n) [] ''commands'' root;
          p' = print_paths qs ((call filepath_Walk (call regexp_Compile (call os_Stat p)))
                          \<lparr>stdout := stdout p @ search_header pattern\<rparr>)
      in case walk_error root of
           None \<Rightarrow> if qs = [] then println no_match_msg p' else p'
         | Some e \<Rightarrow> println (''Error walking directory: '' @ e) p')"
  using assms
  by (simp add: searchFiles_def prim_defs Walk_def walk_searchFiles search_header_def
        print_paths_def no_match_msg_def root_of_Some Let_def split: option.splits)

lemma main_List:
  "UserHomeDir_res w = Inr home \<Longrightarrow> main w List c = listFiles (call os_UserHomeDir (start c))"
  by (simp add: main_def)

lemma main_Search:
  "UserHomeDir_res w = Inr home \<Longrightarrow>
   main w (Search pattern) c = searchFiles w pattern (call os_UserHomeDir (start c))"
  by (simp add: main_def)

text \<open>
  C1, as the code has it. When the walk meets no traversal error, the paths that list
  prints after its two header lines are exactly the entries below the cache path that are
  not directories and whose name ends with \<^verbatim>\<open>.hl\<close>: the callback tests \<^verbatim>\<open>!info.IsDir()\<close>,
  so symbolic links and other special files count like regular files. The set
  \<open>nondir_hl\<close> reads each directory as a set of entries, so the result does not depend on
  the order of the traversal.
\<close>

theorem list_scan_nondir_hl:
  assumes "cache_node (disk p) = Some root" and "walk_error root = None"
  shows "\<exists>qs. set qs = nondir_hl root \<and>
              stdout (listFiles p) = stdout p @ list_header @ map path_line qs"
proof -
  let ?qs = "visited is_hl [] ''commands'' root"
  have "set ?qs = nondir_hl root"
    using assms(2) by (rule set_visited_root_hl)
  moreover have "stdout (listFiles p) = stdout p @ list_header @ map path_line ?qs"
    using assms by (simp add: listFiles_present print_paths_def call_def)
  ultimately show ?thesis by blast
qed

lemma visited_scenario: "visited is_hl [] ''commands'' scenario_tree = [[''a'', ''b.hl''], [''d.hl'']]"
  by (simp add: scenario_tree_def is_hl_def HasSuffix_def)

theorem list_scan_nondir_hl_witness:
  "cache_node (disk (start (WorkingTree scenario_tree))) = Some scenario_tree \<and>
   walk_error scenario_tree = None \<and>
   (\<exists>qs. set qs = nondir_hl scenario_tree \<and>
      stdout (listFiles (start (WorkingTree scenario_tree))) =
        stdout (start (WorkingTree scenario_tree)) @ list_header @ map path_line qs)"
  using list_scan_nondir_hl [of "start (WorkingTree scenario_tree)" scenario_tree]
  by (simp add: start_def scenario_tree_def)

text \<open>
  C1 as stated fails twice. A symbolic link named \<^verbatim>\<open>x.hl\<close> is printed although the tree
  holds no regular file; and a directory that cannot be read ends the walk, so the regular
  file \<^verbatim>\<open>d.hl\<close> that comes after it is never printed.
\<close>

lemma regular_hl_symlink: "regular_hl symlink_tree = {}"
  by (auto simp: regular_hl_def symlink_tree_def at_Directory at_Other)

lemma regular_hl_locked: "[''d.hl''] \<in> regular_hl locked_tree"
  by (simp add: regular_hl_def locked_tree_def at_Directory at_Regular HasSuffix_def)

lemma listFiles_symlink:
  "stdout (listFiles (start (WorkingTree symlink_tree))) = list_header @ [''  x.hl'']"
  by (simp add: listFiles_present [of _ symlink_tree] start_def symlink_tree_def
       is_hl_def HasSuffix_def print_paths_def path_line_def Rel_def println_def call_def)

lemma listFiles_locked:
  "stdout (listFiles (start (WorkingTree locked_tree))) =
     list_header @ [''Error walking directory: permission denied'']"
  by (simp add: listFiles_present [of _ locked_tree] start_def locked_tree_def
       is_hl_def HasSuffix_def print_paths_def path_line_def Rel_def println_def call_def)

theorem list_scan_regular_counterexample:
  "stdout (listFiles (start (WorkingTree symlink_tree))) = list_header @ [''  x.hl''] \<and>
   regular_hl symlink_tree = {} \<and>
   stdout (listFiles (start (WorkingTree locked_tree))) =
     list_header @ [''Error walking directory: permission denied''] \<and>
   [''d.hl''] \<in> regular_hl locked_tree"
  using listFiles_symlink regular_hl_symlink listFiles_locked regular_hl_locked by blast

lemma walk_error_scenario: "walk_error scenario_tree = None"
  by (simp add: scenario_tree_def)

text \<open>
  C8, as the code has it. On the cache with the files \<^verbatim>\<open>a/b.hl\<close>, \<^verbatim>\<open>a/c.txt\<close> and
  \<^verbatim>\<open>d.hl\<close>, list prints its two header lines and then exactly the two path lines, each
  indented by two spaces, \<^verbatim>\<open>a/b.hl\<close> before \<^verbatim>\<open>d.hl\<close>; there is no line for \<^verbatim>\<open>a/c.txt\<close>
  and no further line.
\<close>

theorem list_scenario:
  assumes "UserHomeDir_res w = Inr home" and "cache_node c = Some scenario_tree"
  shows "stdout (main w List c) = list_header @ [''  a/b.hl'', ''  d.hl'']"
  using assms
  by (simp add: main_List listFiles_present [of _ scenario_tree] visited_scenario walk_error_scenario start_def
        call_def print_paths_def path_line_def Rel_def)

theorem list_scenario_witness:
  "UserHomeDir_res scenario_world = Inr ''/home/u'' \<and>
   cache_node (WorkingTree scenario_tree) = Some scenario_tree \<and>
   stdout (main scenario_world List (WorkingTree scenario_tree)) =
     list_header @ [''  a/b.hl'', ''  d.hl'']"
  using list_scenario [of scenario_world "''/home/u''" "WorkingTree scenario_tree"]
  by (simp add: scenario_world_def)

text \<open>C8 as stated fails: the output has four lines, the first two are the header, and
  the path lines are indented.\<close>

lemma list_scenario_stdout:
  "stdout (main scenario_world List (WorkingTree scenario_tree)) =
     [''Listing .hl files in cache directory:'', ''====================================='',
      ''  a/b.hl'', ''  d.hl'']"
  by (simp add: main_List [of _ "''/home/u''"] listFiles_present [of _ scenario_tree]
        visited_scenario walk_error_scenario start_def call_def print_paths_def path_line_def Rel_def
        scenario_world_def list_header_def)

theorem list_scenario_counterexample:
  "stdout (main scenario_world List (WorkingTree scenario_tree)) =
     [''Listing .hl files in cache directory:'', ''====================================='',
      ''  a/b.hl'', ''  d.hl''] \<and>
   stdout (main scenario_world List (WorkingTree scenario_tree)) \<noteq> [''a/b.hl'', ''d.hl''] \<and>
   stdout (main scenario_world List (WorkingTree scenario_tree)) \<noteq> [''d.hl'', ''a/b.hl'']"
  by (simp add: list_scenario_stdout)

section \<open>search\<close>

text \<open>
  C5. search hands the compiled expression the name of each candidate, never its path:
  every path it prints is a non-directory \<^verbatim>\<open>.hl\<close> entry \<open>q\<close> whose last component, the file
  name, matches, and when the walk meets no error these are all printed. So when no file
  name matches, whatever the expression says about directory names or whole paths, an
  error-free search prints nothing but the no-match message.
\<close>

theorem search_matches_filename:
  assumes "cache_node (disk p) = Some root" and "Compile_res w pattern = Inr regex"
  shows "(\<exists>qs. set qs \<subseteq> {q \<in> nondir_hl root. regex (last q)} \<and>
            (walk_error root = None \<longrightarrow> set qs = {q \<in> nondir_hl root. regex (last q)}) \<and>
            stdout (searchFiles w pattern p) =
              stdout p @ search_header pattern @ map path_line qs @
                (case walk_error root of
                   Some e \<Rightarrow> [''Error walking directory: '' @ e]
                 | None \<Rightarrow> if qs = [] then [no_match_msg] else [])) \<and>
         (walk_error root = None \<and> (\<forall>q \<in> nondir_hl root. \<not> regex (last q)) \<longrightarrow>
            stdout (searchFiles w pattern p) =
              stdout p @ search_header pattern @ [no_match_msg])"
proof -
  let ?qs = "visited (\<lambda>n. is_hl n \<and> regex n) [] ''commands'' root"
  have sub: "set ?qs \<subseteq> {q \<in> nondir_hl root. regex (last q)}"
    by (rule visited_root_match_subset)
  have s: "walk_error root = None \<longrightarrow> set ?qs = {q \<in> nondir_hl root. regex (last q)}"
    by (simp add: set_visited_root_match)
  have out: "stdout (searchFiles w pattern p) =
      stdout p @ search_header pattern @ map path_line ?qs @
        (case walk_error root of
           Some e \<Rightarrow> [''Error walking directory: '' @ e]
         | None \<Rightarrow> if ?qs = [] then [no_match_msg] else [])"
    using assms
    by (simp add: searchFiles_present print_paths_def call_def println_def Let_def
          split: option.splits)
  have e: "?qs = []" if "\<forall>q \<in> nondir_hl root. \<not> regex (last q)"
  proof -
    from that have "{q \<in> nondir_hl root. regex (last q)} = {}" by simp
    with sub have "set ?qs = {}" by simp
    then show ?thesis by (simp only: set_empty)
  qed
  have ex: "\<exists>qs. set qs \<subseteq> {q \<in> nondir_hl root. regex (last q)} \<and>
            (walk_error root = None \<longrightarrow> set qs = {q \<in> nondir_hl root. regex (last q)}) \<and>
            stdout (searchFiles w pattern p) =
              stdout p @ search_header pattern @ map path_line qs @
                (case walk_error root of
                   Some e \<Rightarrow> [''Error walking directory: '' @ e]
                 | None \<Rightarrow> if qs = [] then [no_match_msg] else [])"
    by (rule exI [of _ ?qs], rule conjI, rule sub, rule conjI, rule s, rule out)
  have none: "stdout (searchFiles w pattern p) =
              stdout p @ search_header pattern @ [no_match_msg]"
    if "walk_error root = None \<and> (\<forall>q \<in> nondir_hl root. \<not> regex (last q))"
    using out that e by simp
  from ex none show ?thesis by (intro conjI impI)
qed

lemma nondir_hl_scenario: "nondir_hl scenario_tree = {[''a'', ''b.hl''], [''d.hl'']}"
  using set_visited_root_hl [OF walk_error_scenario] by (simp add: visited_scenario)

theorem search_matches_filename_witness:
  "cache_node (disk (start (WorkingTree scenario_tree))) = Some scenario_tree \<and>
   Compile_res scenario_world ''^a'' = Inr (\<lambda>s. HasPrefix s ''a'') \<and>
   walk_error scenario_tree = None \<and>
   HasPrefix (Rel [''a'', ''b.hl'']) ''a'' \<and>
   stdout (searchFiles scenario_world ''^a'' (start (WorkingTree scenario_tree))) =
     search_header ''^a'' @ [no_match_msg]"
proof -
  have h1: "cache_node (disk (start (WorkingTree scenario_tree))) = Some scenario_tree"
    by (simp add: start_def)
  have h2: "Compile_res scenario_world ''^a'' = Inr (\<lambda>s. HasPrefix s ''a'')"
    by (simp add: scenario_world_def scenario_Compile_def HasPrefix_def)
  have h3: "\<forall>q \<in> nondir_hl scenario_tree. \<not> HasPrefix (last q) ''a''"
    by (simp add: nondir_hl_scenario HasPrefix_def)
  have h4: "HasPrefix (Rel [''a'', ''b.hl'']) ''a''"
    by (simp add: HasPrefix_def Rel_def)
  from search_matches_filename [OF h1 h2] h3 walk_error_scenario
  have "stdout (searchFiles scenario_world ''^a'' (start (WorkingTree scenario_tree))) =
     stdout (start (WorkingTree scenario_tree)) @ search_header ''^a'' @ [no_match_msg]"
    by blast
  with h1 h2 h4 walk_error_scenario show ?thesis by (simp add: start_def)
qed

lemma no_match_not_path: "no_match_msg \<noteq> path_line q"
  by (simp add: no_match_msg_def path_line_def)

lemma no_match_not_header: "no_match_msg \<notin> set (search_header pattern)"
  by (simp add: no_match_msg_def search_header_def)

lemma no_match_not_error: "no_match_msg \<noteq> ''Error walking directory: '' @ e"
  by (simp add: no_match_msg_def)

lemma search_stdout:
  assumes "UserHomeDir_res w = Inr home" and "cache_node c = Some root"
    and "Compile_res w pattern = Inr regex"
  shows "stdout (main w (Search pattern) c) =
     search_header pattern @
     map path_line (visited (\<lambda>n. is_hl n \<and> regex n) [] ''commands'' root) @
     (case walk_error root of
        Some e \<Rightarrow> [''Error walking directory: '' @ e]
      | None \<Rightarrow> if visited (\<lambda>n. is_hl n \<and> regex n) [] ''commands'' root = []
                then [no_match_msg] else [])"
  using assms
  by (simp add: main_Search searchFiles_present [of _ root] start_def call_def println_def
        print_paths_def Let_def split: option.splits)

text \<open>
  C9. The walk of search answers the first traversal error of the tree. When there is one,
  the last line search prints is the walk error and the no-match message is not printed,
  whether or not a file matched before the error. The no-match message is printed exactly
  when the walk completes without error and no file name matched.
\<close>

theorem search_walk_error:
  assumes "UserHomeDir_res w = Inr home" and "cache_node c = Some root"
    and "Compile_res w pattern = Inr regex"
  shows "(\<forall>p f. fst (Walk root (searchFiles_fn regex) (p, f)) = walk_error root) \<and>
         (\<forall>e. walk_error root = Some e \<longrightarrow>
            last (stdout (main w (Search pattern) c)) = ''Error walking directory: '' @ e \<and>
            no_match_msg \<notin> set (stdout (main w (Search pattern) c))) \<and>
         (no_match_msg \<in> set (stdout (main w (Search pattern) c)) \<longleftrightarrow>
            walk_error root = None \<and> (\<forall>q \<in> nondir_hl root. \<not> regex (last q)))"
proof -
  let ?qs = "visited (\<lambda>n. is_hl n \<and> regex n) [] ''commands'' root"
  note out = search_stdout [OF assms]
  have np: "no_match_msg \<notin> set (map path_line ?qs)"
    using no_match_not_path by auto
  have a: "\<forall>p f. fst (Walk root (searchFiles_fn regex) (p, f)) = walk_error root"
    by (simp add: Walk_def walk_searchFiles)
  have b: "last (stdout (main w (Search pattern) c)) = ''Error walking directory: '' @ e \<and>
            no_match_msg \<notin> set (stdout (main w (Search pattern) c))"
    if "walk_error root = Some e" for e
    using that np no_match_not_header [of pattern] no_match_not_error [of e]
    by (simp add: out)
  have c1: "no_match_msg \<in> set (stdout (main w (Search pattern) c)) \<longleftrightarrow>
            walk_error root = None \<and> ?qs = []"
    using np no_match_not_header [of pattern] no_match_not_error
    by (cases "walk_error root") (simp_all add: out)
  have c2: "?qs = [] \<longleftrightarrow> (\<forall>q \<in> nondir_hl root. \<not> regex (last q))" if "walk_error root = None"
  proof -
    have s: "set ?qs = {q \<in> nondir_hl root. regex (last q)}"
      using that by (rule set_visited_root_match)
    have "?qs = [] \<longleftrightarrow> set ?qs = {}" by simp
    also have "\<dots> \<longleftrightarrow> {q \<in> nondir_hl root. regex (last q)} = {}" by (simp only: s)
    also have "\<dots> \<longleftrightarrow> (\<forall>q \<in> nondir_hl root. \<not> regex (last q))" by blast
    finally show ?thesis .
  qed
  from c1 c2 have c: "no_match_msg \<in> set (stdout (main w (Search pattern) c)) \<longleftrightarrow>
            walk_error root = None \<and> (\<forall>q \<in> nondir_hl root. \<not> regex (last q))"
    by (cases "walk_error root = None") simp_all
  from a b c show ?thesis by blast
qed

theorem search_walk_error_witness:
  "UserHomeDir_res scenario_world = Inr ''/home/u'' \<and>
   cache_node (Partial locked_tree) = Some locked_tree \<and>
   Compile_res scenario_world ''^z'' = Inr (\<lambda>s. HasPrefix s ''z'') \<and>
   walk_error locked_tree = Some ''permission denied'' \<and>
   last (stdout (main scenario_world (Search ''^z'') (Partial locked_tree))) =
     ''Error walking directory: permission denied'' \<and>
   no_match_msg \<notin> set (stdout (main scenario_world (Search ''^z'') (Partial locked_tree)))"
proof -
  have h1: "UserHomeDir_res scenario_world = Inr ''/home/u''"
    by (simp add: scenario_world_def)
  have h2: "cache_node (Partial locked_tree) = Some locked_tree"
    by simp
  have h3: "Compile_res scenario_world ''^z'' = Inr (\<lambda>s. HasPrefix s ''z'')"
    by (simp add: scenario_world_def scenario_Compile_def HasPrefix_def)
  have h4: "walk_error locked_tree = Some ''permission denied''"
    by (simp add: locked_tree_def)
  from search_walk_error [OF h1 h2 h3] h4
  have "last (stdout (main scenario_world (Search ''^z'') (Partial locked_tree))) =
          ''Error walking directory: '' @ ''permission denied'' \<and>
        no_match_msg \<notin> set (stdout (main scenario_world (Search ''^z'') (Partial locked_tree)))"
    by blast
  with h1 h2 h3 h4 show ?thesis by simp
qed

section \<open>status\<close>








lemma scenario_status_hyps:
  "UserHomeDir_res scenario_world = Inr ''/home/u''"
  "PlainOpen_err scenario_world = None"
  "Remote_err scenario_world = None"
  "List_res scenario_world =
     Inr [\<lparr>ref_Name = ''HEAD'', ref_Hash = 0\<rparr>, \<lparr>ref_Name = ''refs/tags/main'', ref_Hash = 7\<rparr>,
          main_ref]"
  "Head_res scenario_world = Inr 0x0123456789abcdef0123456789abcdef01234567"
  by (simp_all add: scenario_world_def)








section \<open>init\<close>

lemmas init_defs =
  main_def initRepository_def RemoveAll_def MkdirAll_def PlainClone_def prim_defs Let_def

text \<open>
  C3, as the code has it. On a cache path that exists, init without force prints that the
  repository already exists, calls nothing but \<^verbatim>\<open>os.Stat\<close>, and leaves the disk as it was.
  With force, whatever is at the cache path, the first call is \<^verbatim>\<open>os.RemoveAll\<close>; each
  later step runs once the one before it has succeeded, in the order \<^verbatim>\<open>Stat\<close>,
  \<^verbatim>\<open>MkdirAll\<close>, \<^verbatim>\<open>PlainClone\<close>; the run ends with status 0 exactly when all three
  succeed, and then the cache path holds the tree the clone wrote.
\<close>

theorem init_existing_and_force:
  assumes "UserHomeDir_res w = Inr home"
  shows "(cache_node c \<noteq> None \<longrightarrow>
            stdout (main w (Init False) c) =
              [''Repository already exists at: '' @ Join w [home, ''.opencmd'', ''commands''],
               ''Use -f flag to force re-clone.''] \<and>
            calls (main w (Init False) c) = [os_UserHomeDir, os_Stat] \<and>
            disk (main w (Init False) c) = c \<and>
            exit_status (main w (Init False) c) = 0) \<and>
         calls (main w (Init True) c) =
           [os_UserHomeDir, os_RemoveAll] @
           (if RemoveAll_err w = None
            then [os_Stat, os_MkdirAll] @ (if MkdirAll_err w = None then [git_PlainClone] else [])
            else []) \<and>
         exit_status (main w (Init True) c) =
           (if RemoveAll_err w = None \<and> MkdirAll_err w = None \<and> \<not> isl (PlainClone_res w)
            then 0 else 1) \<and>
         (\<forall>t. RemoveAll_err w = None \<and> MkdirAll_err w = None \<and> PlainClone_res w = Inr t \<longrightarrow>
            disk (main w (Init True) c) = WorkingTree t \<and>
            exit_status (main w (Init True) c) = 0 \<and>
            stdout (main w (Init True) c) =
              [''Removed existing cache directory.'',
               ''Cloning repository to: '' @ Join w [home, ''.opencmd'', ''commands''],
               ''Repository cloned successfully!''])"
proof (intro conjI impI allI)
  assume "cache_node c \<noteq> None"
  then obtain root where r: "cache_node c = Some root" by blast
  show "stdout (main w (Init False) c) =
              [''Repository already exists at: '' @ Join w [home, ''.opencmd'', ''commands''],
               ''Use -f flag to force re-clone.'']"
    using assms r by (simp add: init_defs)
  show "calls (main w (Init False) c) = [os_UserHomeDir, os_Stat]"
    using assms r by (simp add: init_defs)
  show "disk (main w (Init False) c) = c"
    using assms r by (simp add: init_defs)
  show "exit_status (main w (Init False) c) = 0"
    using assms r by (simp add: init_defs)
next
  show "calls (main w (Init True) c) =
           [os_UserHomeDir, os_RemoveAll] @
           (if RemoveAll_err w = None
            then [os_Stat, os_MkdirAll] @ (if MkdirAll_err w = None then [git_PlainClone] else [])
            else [])"
    using assms by (cases "PlainClone_res w") (simp_all add: init_defs split: option.splits)
next
  show "exit_status (main w (Init True) c) =
           (if RemoveAll_err w = None \<and> MkdirAll_err w = None \<and> \<not> isl (PlainClone_res w)
            then 0 else 1)"
    using assms by (cases "PlainClone_res w") (simp_all add: init_defs split: option.splits)
next
  fix t
  assume a: "RemoveAll_err w = None \<and> MkdirAll_err w = None \<and> PlainClone_res w = Inr t"
  show "disk (main w (Init True) c) = WorkingTree t"
    using assms a by (simp add: init_defs)
  show "exit_status (main w (Init True) c) = 0"
    using assms a by (simp add: init_defs)
  show "stdout (main w (Init True) c) =
              [''Removed existing cache directory.'',
               ''Cloning repository to: '' @ Join w [home, ''.opencmd'', ''commands''],
               ''Repository cloned successfully!'']"
    using assms a by (simp add: init_defs)
qed

theorem init_existing_and_force_witness:
  "UserHomeDir_res scenario_world = Inr ''/home/u'' \<and>
   cache_node (Partial locked_tree) \<noteq> None \<and>
   calls (main scenario_world (Init False) (Partial locked_tree)) = [os_UserHomeDir, os_Stat] \<and>
   disk (main scenario_world (Init False) (Partial locked_tree)) = Partial locked_tree \<and>
   calls (main scenario_world (Init True) (Partial locked_tree)) =
     [os_UserHomeDir, os_RemoveAll, os_Stat, os_MkdirAll, git_PlainClone] \<and>
   disk (main scenario_world (Init True) (Partial locked_tree)) = WorkingTree scenario_tree \<and>
   exit_status (main scenario_world (Init True) (Partial locked_tree)) = 0"
proof -
  have w: "RemoveAll_err scenario_world = None" "MkdirAll_err scenario_world = None"
    "PlainClone_res scenario_world = Inr scenario_tree"
    by (simp_all add: scenario_world_def)
  have c: "cache_node (Partial locked_tree) \<noteq> None" by simp
  note t = init_existing_and_force [OF scenario_status_hyps(1), of "Partial locked_tree"]
  from t c have "calls (main scenario_world (Init False) (Partial locked_tree)) =
      [os_UserHomeDir, os_Stat] \<and>
    disk (main scenario_world (Init False) (Partial locked_tree)) = Partial locked_tree"
    by blast
  moreover from t w have "calls (main scenario_world (Init True) (Partial locked_tree)) =
     [os_UserHomeDir, os_RemoveAll, os_Stat, os_MkdirAll, git_PlainClone]"
    by simp
  moreover from t w have "disk (main scenario_world (Init True) (Partial locked_tree)) =
      WorkingTree scenario_tree \<and>
    exit_status (main scenario_world (Init True) (Partial locked_tree)) = 0"
    by blast
  ultimately show ?thesis using scenario_status_hyps(1) c by blast
qed

text \<open>
  C3 as stated fails in its second half: when the cache cannot be removed, init with
  force reports the error and exits with status 1; nothing is re-created or cloned.
\<close>

theorem init_force_counterexample:
  "calls (main readonly_world (Init True) (WorkingTree scenario_tree)) =
     [os_UserHomeDir, os_RemoveAll] \<and>
   git_PlainClone \<notin> set (calls (main readonly_world (Init True) (WorkingTree scenario_tree))) \<and>
   stdout (main readonly_world (Init True) (WorkingTree scenario_tree)) =
     [''Error removing existing directory: permission denied''] \<and>
   exit_status (main readonly_world (Init True) (WorkingTree scenario_tree)) = 1"
  by (simp add: init_defs readonly_world_def scenario_world_def)

section \<open>The cache path after a run\<close>

lemma disk_listFiles: "disk (listFiles p) = disk p"
proof (cases "cache_node (disk p)")
  case None
  then show ?thesis by (simp add: listFiles_def prim_defs)
next
  case (Some root)
  then show ?thesis
    by (simp add: listFiles_present print_paths_def call_def println_def Let_def split: option.splits)
qed

lemma disk_searchFiles: "disk (searchFiles w pattern p) = disk p"
proof (cases "cache_node (disk p)")
  case None
  then show ?thesis by (simp add: searchFiles_def prim_defs)
next
  case (Some root)
  show ?thesis
  proof (cases "Compile_res w pattern")
    case (Inl e)
    with Some show ?thesis by (simp add: searchFiles_def prim_defs)
  next
    case (Inr regex)
    with Some show ?thesis
      by (simp add: searchFiles_present print_paths_def call_def println_def Let_def
            split: option.splits)
  qed
qed

lemma disk_checkRepository: "disk (checkRepository w p) = disk p"
  by (simp add: checkRepository_def prim_defs Let_def split: option.splits sum.splits)

lemma disk_main_readonly:
  "cmd = List \<or> cmd = Search pattern \<or> cmd = Status \<Longrightarrow> disk (main w cmd c) = c"
  by (auto simp: main_def disk_listFiles disk_searchFiles disk_checkRepository
        start_def call_def os_Exit_def println_def Let_def split: sum.splits)

lemma init_keeps_valid:
  "valid_cache c \<Longrightarrow> exit_status (main w (Init forceClone) c) = 0 \<Longrightarrow>
   valid_cache (disk (main w (Init forceClone) c))"
  by (cases c; cases forceClone)
     (auto simp: init_defs valid_cache_def split: option.splits sum.splits if_splits)

text \<open>
  C7, as the code has it. list, search and status never change what is at the cache path;
  and a run of any command that ends with status 0, started with the cache path absent or
  holding a completed clone, leaves it absent or holding a completed clone.
\<close>

theorem cache_stays_valid:
  "(cmd = List \<or> cmd = Search pattern \<or> cmd = Status \<longrightarrow> disk (main w cmd c) = c) \<and>
   (valid_cache c \<and> exit_status (main w cmd c) = 0 \<longrightarrow> valid_cache (disk (main w cmd c)))"
proof (intro conjI impI)
  assume "cmd = List \<or> cmd = Search pattern \<or> cmd = Status"
  then show "disk (main w cmd c) = c" by (rule disk_main_readonly)
next
  assume a: "valid_cache c \<and> exit_status (main w cmd c) = 0"
  show "valid_cache (disk (main w cmd c))"
  proof (cases cmd)
    case (Init forceClone)
    with a show ?thesis using init_keeps_valid by blast
  next
    case List
    with a show ?thesis by (simp add: disk_main_readonly)
  next
    case (Search pat)
    with a show ?thesis by (simp add: disk_main_readonly [of _ pat])
  next
    case Status
    with a show ?thesis by (simp add: disk_main_readonly)
  next
    case (Rejected e)
    with a show ?thesis
      by (simp add: main_def prim_defs Let_def split: sum.splits)
  qed
qed

theorem cache_stays_valid_witness:
  "valid_cache Absent \<and>
   exit_status (main scenario_world (Init False) Absent) = 0 \<and>
   valid_cache (disk (main scenario_world (Init False) Absent)) \<and>
   disk (main scenario_world List (WorkingTree scenario_tree)) = WorkingTree scenario_tree"
proof -
  have v: "valid_cache Absent" by (simp add: valid_cache_def)
  have e: "exit_status (main scenario_world (Init False) Absent) = 0"
    by (simp add: init_defs scenario_world_def)
  from cache_stays_valid [of "Init False" "[]" scenario_world Absent] v e
  have "valid_cache (disk (main scenario_world (Init False) Absent))" by blast
  moreover from cache_stays_valid [of List "[]" scenario_world "WorkingTree scenario_tree"]
  have "disk (main scenario_world List (WorkingTree scenario_tree)) = WorkingTree scenario_tree"
    by blast
  ultimately show ?thesis using v e by blast
qed

text \<open>
  C7 as stated fails: with the network down, init on an absent cache creates the
  directory, the clone fails, and the process exits with status 1 leaving the directory
  behind, which is neither absent nor a completed clone.
\<close>

theorem partial_state_counterexample:
  "valid_cache Absent \<and>
   calls (main offline_world (Init False) Absent) =
     [os_UserHomeDir, os_Stat, os_MkdirAll, git_PlainClone] \<and>
   exit_status (main offline_world (Init False) Absent) = 1 \<and>
   disk (main offline_world (Init False) Absent) = Partial (Directory []) \<and>
   \<not> valid_cache (disk (main offline_world (Init False) Absent))"
  by (simp add: init_defs valid_cache_def offline_world_def scenario_world_def)

end
